theory Spec2Isabelle
  imports Complex_Main "HOL-Library.Char_ord" "HOL-Library.List_Lexorder"
begin

section \<open>scripts/generateMetrics.ts: the data\<close>

text \<open>
  A time zone gives the offset from UTC, in minutes, at every instant (an instant is a
  number of milliseconds since 1970-01-01T00:00:00Z): the offset before the first change
  and the changes, each an instant and the offset from it on, in ascending order. UTC is
  \<open>(0, [])\<close>.
\<close>

type_synonym Zone = "int \<times> (int \<times> int) list"

text \<open>
  A timestamp is the value \<open>DateTime.fromISO\<close> yields for a well-formed ISO-8601 string
  (the GitHub API sends \<open>YYYY-MM-DDTHH:MM:SSZ\<close>), or \<open>DateTime.now()\<close>. Both are in the
  time zone of the process: the calendar fields are local, \<open>offset\<close> is the offset of
  the zone at the instant, and \<open>zone\<close> is the zone.
\<close>

record DateTime =
  year :: int
  month :: int
  day :: int
  hour :: int
  minute :: int
  second :: int
  millisecond :: int
  offset :: int
  zone :: Zone

text \<open>
  The fields of a pull request or an issue that the script reads: \<open>user?.login\<close>
  (\<open>None\<close> when the user is null or has no login), \<open>created_at\<close>, \<open>closed_at\<close>
  (\<open>None\<close> for null) and whether the key \<open>pull_request\<close> is present, which the
  issues endpoint sets on the pull requests it lists.
\<close>

record GithubPullOrIssue =
  login :: "string option"
  created_at :: DateTime
  closed_at :: "DateTime option"
  pull_request :: bool

text \<open>
  The metric stores of \<open>main\<close>. A JavaScript \<open>Set\<close> keeps its elements in insertion
  order without duplicates: a list. A \<open>Record\<close> with string keys that are no array
  indices keeps its properties in insertion order: an association list.
\<close>

record stores =
  namesOfContributors :: "string list"
  namesOfRecentContributors :: "string list"
  secondsToClosePulls :: "rat list"
  secondsToCloseIssues :: "rat list"
  bucketPullCount :: "(string \<times> nat) list"
  bucketNewContributors :: "(string \<times> string list) list"

definition emptyStores :: stores where
  "emptyStores = \<lparr> namesOfContributors = [], namesOfRecentContributors = [],
     secondsToClosePulls = [], secondsToCloseIssues = [],
     bucketPullCount = [], bucketNewContributors = [] \<rparr>"

subsection \<open>Sets and objects of JavaScript\<close>

definition Set_has :: "'a list \<Rightarrow> 'a \<Rightarrow> bool" where
  "Set_has s x = (x \<in> set s)"

definition Set_add :: "'a \<Rightarrow> 'a list \<Rightarrow> 'a list" where
  "Set_add x s = (if x \<in> set s then s else s @ [x])"

definition Set_delete :: "'a \<Rightarrow> 'a list \<Rightarrow> 'a list" where
  "Set_delete x s = removeAll x s"

definition Set_size :: "'a list \<Rightarrow> nat" where
  "Set_size s = length s"

text \<open>\<open>new Set(xs)\<close>: the elements of \<open>xs\<close> in the order of their first occurrence.\<close>

definition Set_of :: "'a list \<Rightarrow> 'a list" where
  "Set_of xs = fold Set_add xs []"

text \<open>\<open>obj[k]\<close> and \<open>obj[k] = v\<close>: a new key goes to the end, an old one keeps its place.\<close>

definition obj_get :: "('k \<times> 'v) list \<Rightarrow> 'k \<Rightarrow> 'v option" where
  "obj_get obj k = map_of obj k"

fun obj_set :: "'k \<Rightarrow> 'v \<Rightarrow> ('k \<times> 'v) list \<Rightarrow> ('k \<times> 'v) list" where
  "obj_set k v [] = [(k, v)]"
| "obj_set k v (p # ps) = (if fst p = k then (k, v) # ps else p # obj_set k v ps)"

definition Object_values :: "('k \<times> 'v) list \<Rightarrow> 'v list" where
  "Object_values obj = map snd obj"

subsection \<open>Timestamps\<close>

definition isLeapYear :: "int \<Rightarrow> bool" where
  "isLeapYear y = (y mod 4 = 0 \<and> (y mod 100 \<noteq> 0 \<or> y mod 400 = 0))"

definition nonLeapLadder :: "int list" where
  "nonLeapLadder = [0, 31, 59, 90, 120, 151, 181, 212, 243, 273, 304, 334]"

definition leapLadder :: "int list" where
  "leapLadder = [0, 31, 60, 91, 121, 152, 182, 213, 244, 274, 305, 335]"

text \<open>The day of the year, from 1. The month of a parsed timestamp is in 1..12.\<close>

definition computeOrdinal :: "int \<Rightarrow> int \<Rightarrow> int \<Rightarrow> int" where
  "computeOrdinal y m d =
     d + (if isLeapYear y then leapLadder else nonLeapLadder) ! nat (m - 1)"

definition leapsBefore :: "int \<Rightarrow> int" where
  "leapsBefore y = (y - 1) div 4 - (y - 1) div 100 + (y - 1) div 400"

definition daysSinceEpoch :: "int \<Rightarrow> int \<Rightarrow> int \<Rightarrow> int" where
  "daysSinceEpoch y m d =
     365 * (y - 1970) + (leapsBefore y - leapsBefore 1970) + (computeOrdinal y m d - 1)"

text \<open>The calendar fields as if they were UTC, and the instant of the timestamp.\<close>

definition objToLocalTS :: "DateTime \<Rightarrow> int" where
  "objToLocalTS dt = daysSinceEpoch (year dt) (month dt) (day dt) * 86400000
     + hour dt * 3600000 + minute dt * 60000 + second dt * 1000 + millisecond dt"

definition toMillis :: "DateTime \<Rightarrow> int" where
  "toMillis dt = objToLocalTS dt - offset dt * 60 * 1000"

text \<open>The ISO weekday, Monday = 1 to Sunday = 7; 1970-01-01 was a Thursday.\<close>

definition dayOfWeek :: "int \<Rightarrow> int \<Rightarrow> int \<Rightarrow> int" where
  "dayOfWeek y m d = (daysSinceEpoch y m d + 3) mod 7 + 1"

definition weeksInWeekYear :: "int \<Rightarrow> int" where
  "weeksInWeekYear weekYear =
     (let p1 = (weekYear + weekYear div 4 - weekYear div 100 + weekYear div 400) mod 7;
          last = weekYear - 1;
          p2 = (last + last div 4 - last div 100 + last div 400) mod 7
      in if p1 = 4 \<or> p2 = 3 then 53 else 52)"

text \<open>
  \<open>dateTime.weekNumber\<close> and \<open>dateTime.weekYear\<close> of luxon: the ISO-8601 week and the
  year that week belongs to (the week with the year's first Thursday is week 1).
\<close>

definition gregorianToWeek :: "DateTime \<Rightarrow> int \<times> int" where
  "gregorianToWeek dt =
     (let ordinal = computeOrdinal (year dt) (month dt) (day dt);
          weekday = dayOfWeek (year dt) (month dt) (day dt);
          wn = (ordinal - weekday + 10) div 7
      in if wn < 1 then (year dt - 1, weeksInWeekYear (year dt - 1))
         else if wn > weeksInWeekYear (year dt) then (year dt + 1, 1)
         else (year dt, wn))"

definition weekYear :: "DateTime \<Rightarrow> int" where
  "weekYear dt = fst (gregorianToWeek dt)"

definition weekNumber :: "DateTime \<Rightarrow> int" where
  "weekNumber dt = snd (gregorianToWeek dt)"

text \<open>\<open>a.diff(b, "seconds").seconds\<close>: the milliseconds between the instants, by 1000.\<close>

definition diffSeconds :: "DateTime \<Rightarrow> DateTime \<Rightarrow> rat" where
  "diffSeconds a b = of_int (toMillis a - toMillis b) / 1000"

subsection \<open>The difference in days\<close>

text \<open>
  \<open>a.diff(b, "days").days\<close> is computed by luxon on the local calendar: the whole days
  from the earlier timestamp, added to its local date in its zone, and the part of the
  next such day that has passed. The functions below follow luxon's \<open>zone.offset\<close>,
  \<open>fixOffset\<close>, \<open>plus\<close>, \<open>dayDiff\<close> and \<open>diff\<close>, on a timestamp given by its instant
  and its offset.
\<close>

fun offsetAt :: "int \<Rightarrow> (int \<times> int) list \<Rightarrow> int \<Rightarrow> int" where
  "offsetAt o0 [] ts = o0"
| "offsetAt o0 ((t, o1) # changes) ts = (if ts < t then o0 else offsetAt o1 changes ts)"

definition zoneOffset :: "Zone \<Rightarrow> int \<Rightarrow> int" where
  "zoneOffset tz ts = offsetAt (fst tz) (snd tz) ts"

text \<open>
  The instant of a local time: the offset it comes with is tried first, then the offset
  the zone has there; a local time that the zone skips is moved over the gap.
\<close>

definition fixOffset :: "int \<Rightarrow> int \<Rightarrow> Zone \<Rightarrow> int \<times> int" where
  "fixOffset localTS o1 tz =
     (let utcGuess = localTS - o1 * 60 * 1000;
          o2 = zoneOffset tz utcGuess
      in if o1 = o2 then (utcGuess, o1)
         else (let utcGuess2 = utcGuess - (o2 - o1) * 60 * 1000;
                   o3 = zoneOffset tz utcGuess2
               in if o2 = o3 then (utcGuess2, o2)
                  else (localTS - min o2 o3 * 60 * 1000, max o2 o3)))"

text \<open>\<open>dt.plus({ days: n })\<close>: the local date moves by \<open>n\<close> days, the local time stays.\<close>

definition plusDays :: "Zone \<Rightarrow> int \<times> int \<Rightarrow> int \<Rightarrow> int \<times> int" where
  "plusDays tz inst n =
     fixOffset (fst inst + snd inst * 60 * 1000 + n * 86400000) (snd inst) tz"

definition utcDayStart :: "int \<times> int \<Rightarrow> int" where
  "utcDayStart inst = (fst inst + snd inst * 60 * 1000) div 86400000 * 86400000"

definition dayDiff :: "int \<times> int \<Rightarrow> int \<times> int \<Rightarrow> int" where
  "dayDiff earlier later = (utcDayStart later - utcDayStart earlier) div 86400000"

text \<open>A number of JavaScript: the division by zero gives an infinity or \<open>NaN\<close>.\<close>

datatype number = Finite rat | PosInfinity | NegInfinity | NaN

definition addFraction :: "int \<Rightarrow> int \<Rightarrow> int \<Rightarrow> number" where
  "addFraction days remainingMillis dayLength =
     (if dayLength = 0
      then (if 0 < remainingMillis then PosInfinity
            else if remainingMillis < 0 then NegInfinity else NaN)
      else Finite (of_int days + of_int remainingMillis / of_int dayLength))"

fun negate :: "number \<Rightarrow> number" where
  "negate (Finite x) = Finite (- x)"
| "negate PosInfinity = NegInfinity"
| "negate NegInfinity = PosInfinity"
| "negate NaN = NaN"

fun isLessThan :: "number \<Rightarrow> rat \<Rightarrow> bool" where
  "isLessThan (Finite x) y = (x < y)"
| "isLessThan PosInfinity y = False"
| "isLessThan NegInfinity y = True"
| "isLessThan NaN y = False"

text \<open>
  luxon's \<open>diff\<close> for the unit days: \<open>highWater\<close> is the earlier timestamp plus the
  days between the local dates; when it is past the later timestamp, a day is taken back
  (and one more when that is not enough).
\<close>

definition diffInDays :: "Zone \<Rightarrow> int \<times> int \<Rightarrow> int \<times> int \<Rightarrow> number" where
  "diffInDays tz earlier later =
     (let delta = dayDiff earlier later;
          highWater = plusDays tz earlier delta
      in if fst later < fst highWater
         then (let cursor = plusDays tz earlier (delta - 1)
               in if fst later < fst cursor
                  then (let cursor2 = plusDays tz earlier (delta - 2)
                        in addFraction (delta - 2) (fst later - fst cursor2)
                             (fst cursor - fst cursor2))
                  else addFraction (delta - 1) (fst later - fst cursor)
                         (fst highWater - fst cursor))
         else if fst highWater < fst later
         then addFraction delta (fst later - fst highWater)
                (fst (plusDays tz highWater 1) - fst highWater)
         else Finite (of_int delta))"

definition instantOf :: "DateTime \<Rightarrow> int \<times> int" where
  "instantOf dt = (toMillis dt, offset dt)"

definition diffDays :: "DateTime \<Rightarrow> DateTime \<Rightarrow> number" where
  "diffDays a b =
     (if toMillis a < toMillis b
      then negate (diffInDays (zone a) (instantOf a) (instantOf b))
      else diffInDays (zone b) (instantOf b) (instantOf a))"

subsection \<open>Numbers in template strings\<close>

definition digit :: "nat \<Rightarrow> char" where
  "digit n = ''0123456789'' ! n"

fun showNat :: "nat \<Rightarrow> string" where
  "showNat n = (if n < 10 then [digit n] else showNat (n div 10) @ [digit (n mod 10)])"

declare showNat.simps [simp del]

definition showInt :: "int \<Rightarrow> string" where
  "showInt i = (if i < 0 then CHR ''-'' # showNat (nat (- i)) else showNat (nat i))"

section \<open>scripts/generateMetrics.ts: the functions\<close>

definition PAST_DAYS_FOR_METRICS :: rat where
  "PAST_DAYS_FOR_METRICS = 30"

definition endsWith :: "string \<Rightarrow> string \<Rightarrow> bool" where
  "endsWith s suf = (length suf \<le> length s \<and> drop (length s - length suf) s = suf)"

definition botAccounts :: "string list" where
  "botAccounts = [''snyk-bot'']"

definition isContributorABot :: "string \<Rightarrow> bool" where
  "isContributorABot contributor =
     (endsWith contributor ''[bot]'' \<or> contributor \<in> set botAccounts)"

text \<open>\<open>DateTime.now()\<close> is read at every call: the clock is an argument.\<close>

definition isPullOrIssueWithinMetricsRange :: "DateTime \<Rightarrow> GithubPullOrIssue \<Rightarrow> bool" where
  "isPullOrIssueWithinMetricsRange now pullOrIssue =
     isLessThan (diffDays now (created_at pullOrIssue)) PAST_DAYS_FOR_METRICS"

definition getBucketKey :: "GithubPullOrIssue \<Rightarrow> string" where
  "getBucketKey pullOrIssue =
     (let dateTime = created_at pullOrIssue
      in showInt (year dateTime) @ '':'' @ showInt (weekNumber dateTime))"

text \<open>
  \<open>addNewContributorToBucket\<close>: the bucket of the key is created first; the loop over
  all buckets returns at the first one that has the contributor.
\<close>

definition addNewContributorToBucket ::
  "string \<Rightarrow> string \<Rightarrow> (string \<times> string list) list \<Rightarrow> (string \<times> string list) list" where
  "addNewContributorToBucket bucketKey contributor buckets =
     (let buckets1 = obj_set bucketKey
            (case obj_get buckets bucketKey of Some s \<Rightarrow> s | None \<Rightarrow> []) buckets
      in if list_ex (\<lambda>contributors. Set_has contributors contributor) (Object_values buckets1)
         then buckets1
         else obj_set bucketKey
            (Set_add contributor (case obj_get buckets1 bucketKey of Some s \<Rightarrow> s | None \<Rightarrow> []))
            buckets1)"

definition getSecondsToClose :: "GithubPullOrIssue \<Rightarrow> rat option" where
  "getSecondsToClose pullOrIssue =
     (case closed_at pullOrIssue of
        Some dateClosedAt \<Rightarrow> Some (diffSeconds dateClosedAt (created_at pullOrIssue))
      | None \<Rightarrow> None)"

text \<open>The truth value of a number that may be undefined, and of a string that may be.\<close>

fun truthyNumber :: "rat option \<Rightarrow> bool" where
  "truthyNumber None = False"
| "truthyNumber (Some x) = (x \<noteq> 0)"

fun truthyString :: "string option \<Rightarrow> bool" where
  "truthyString None = False"
| "truthyString (Some s) = (s \<noteq> [])"

text \<open>
  The block that \<open>getPullMetrics\<close> and \<open>getIssueMetrics\<close> both end with, for an
  author with a login who is no bot.
\<close>

definition trackContributor :: "string \<Rightarrow> bool \<Rightarrow> string \<Rightarrow> stores \<Rightarrow> stores" where
  "trackContributor key inRange name st =
     (let st1 = st\<lparr> bucketNewContributors :=
                      addNewContributorToBucket key name (bucketNewContributors st) \<rparr>
      in if inRange
         then st1\<lparr> namesOfRecentContributors := Set_add name (namesOfRecentContributors st1) \<rparr>
         else st1\<lparr> namesOfContributors := Set_add name (namesOfContributors st1) \<rparr>)"

text \<open>
  \<open>getPullMetrics\<close>; \<open>count\<close> is the value of \<open>bucketPullCount[key] || 0\<close>.
\<close>

definition getPullMetrics :: "DateTime \<Rightarrow> GithubPullOrIssue \<Rightarrow> stores \<Rightarrow> stores" where
  "getPullMetrics now pull st =
     (let key = getBucketKey pull;
          secondsToClose = getSecondsToClose pull;
          isPullInRange = isPullOrIssueWithinMetricsRange now pull;
          count = (case obj_get (bucketPullCount st) key of
                     Some n \<Rightarrow> (if n = 0 then 0 else n) | None \<Rightarrow> 0);
          st1 = st\<lparr> bucketPullCount := obj_set key (count + 1) (bucketPullCount st) \<rparr>;
          st2 = (if isPullInRange \<and> truthyNumber secondsToClose
                 then st1\<lparr> secondsToClosePulls :=
                        secondsToClosePulls st1 @ [the secondsToClose] \<rparr>
                 else st1)
      in if truthyString (login pull) \<and> \<not> isContributorABot (the (login pull))
         then trackContributor key isPullInRange (the (login pull)) st2
         else st2)"

definition getIssueMetrics :: "DateTime \<Rightarrow> GithubPullOrIssue \<Rightarrow> stores \<Rightarrow> stores" where
  "getIssueMetrics now issue st =
     (let key = getBucketKey issue;
          secondsToClose = getSecondsToClose issue;
          isIssueInRange = isPullOrIssueWithinMetricsRange now issue;
          st2 = (if isIssueInRange \<and> truthyNumber secondsToClose
                 then st\<lparr> secondsToCloseIssues :=
                        secondsToCloseIssues st @ [the secondsToClose] \<rparr>
                 else st)
      in if truthyString (login issue) \<and> \<not> isContributorABot (the (login issue))
         then trackContributor key isIssueInRange (the (login issue)) st2
         else st2)"

subsection \<open>The run over the organisation's repositories\<close>

text \<open>
  What the paginated iterators deliver for one repository: the pages of its closed pull
  requests and of its closed issues, every item with the reading of the clock at the
  moment it is processed.
\<close>

record Repo =
  pullPages :: "(DateTime \<times> GithubPullOrIssue) list list"
  issuePages :: "(DateTime \<times> GithubPullOrIssue) list list"

record argv =
  commitChanges :: bool
  withMetrics :: bool
  withAdopterList :: bool
  withSubset :: bool

datatype event = PullSeen DateTime GithubPullOrIssue | IssueSeen DateTime GithubPullOrIssue

text \<open>With \<open>withSubset\<close> the loop over the pages breaks after the first page.\<close>

definition pagesRead :: "bool \<Rightarrow> 'a list list \<Rightarrow> 'a list" where
  "pagesRead onlyFirst pages = concat (if onlyFirst then take 1 pages else pages)"

definition repoEvents :: "bool \<Rightarrow> Repo \<Rightarrow> event list" where
  "repoEvents onlyFirst repo =
     map (\<lambda>(now, pull). PullSeen now pull) (pagesRead onlyFirst (pullPages repo))
     @ map (\<lambda>(now, issue). IssueSeen now issue) (pagesRead onlyFirst (issuePages repo))"

definition runEvents :: "argv \<Rightarrow> Repo list \<Rightarrow> event list" where
  "runEvents args repos =
     (if withMetrics args then concat (map (repoEvents (withSubset args)) repos) else [])"

fun step :: "event \<Rightarrow> stores \<Rightarrow> stores" where
  "step (PullSeen now pull) st = getPullMetrics now pull st"
| "step (IssueSeen now issue) st =
     (if \<not> pull_request issue then getIssueMetrics now issue st else st)"

definition collectMetrics :: "argv \<Rightarrow> Repo list \<Rightarrow> stores" where
  "collectMetrics args repos = fold step (runEvents args repos) emptyStores"

subsection \<open>The adopter list\<close>

record Contributor =
  full_name :: string

text \<open>
  What \<open>yaml.load\<close> makes of the fetched text: it throws, or it returns a value whose
  \<open>contributors\<close> property is a list of records (\<open>Some\<close>) or is no such list
  (\<open>None\<close>). What \<open>fetch\<close> and \<open>response.text()\<close> do: they reject, or the text
  arrives.
\<close>

datatype yaml_load = YamlThrows | YamlValue "Contributor list option"

datatype fetched = FetchRejects | ResponseText yaml_load

datatype error = NetworkError | CommitError

text \<open>
  A line on the console: \<open>console.log\<close> of a list of names, or \<open>console.error\<close> with
  its message (the error object that follows the message is left out).
\<close>

datatype console = ConsoleLog "string list" | ConsoleError string

text \<open>
  \<open>getAdopterList\<close>, with the lines it writes to the console: the two awaits stand
  before the \<open>try\<close> block, so a rejection leaves the function; inside the block,
  \<open>yaml.load\<close> throwing and \<open>.map\<close> on a missing \<open>contributors\<close> both reach the
  \<open>catch\<close>, which writes the error and returns the empty list.
\<close>

fun getAdopterList :: "fetched \<Rightarrow> console list \<times> (error + string list)" where
  "getAdopterList FetchRejects = ([], Inl NetworkError)"
| "getAdopterList (ResponseText YamlThrows) = ([ConsoleError ''Error parsing YAML:''], Inr [])"
| "getAdopterList (ResponseText (YamlValue None)) =
     ([ConsoleError ''Error parsing YAML:''], Inr [])"
| "getAdopterList (ResponseText (YamlValue (Some contributors))) =
     (let adopters = Set_of (map full_name contributors)
      in ([ConsoleLog adopters], Inr (sort adopters)))"

subsection \<open>Statistics\<close>

text \<open>
  Modelled from the spec: the packages \<open>percentile\<close> and \<open>lodash.mean\<close> that \<open>main\<close>
  imports are not among the sources. Section 4.5 asks for a standard percentile and the
  arithmetic mean, absent on an empty collection. The percentile is the nearest-rank one:
  the element of rank \<open>ceiling (n * p / 100)\<close> of the sorted samples.
\<close>

definition percentile :: "nat \<Rightarrow> rat list \<Rightarrow> rat option" where
  "percentile p list =
     (let sorted = sort list;
          kIndex = (int (length sorted) * int p + 99) div 100 - 1
      in if sorted = [] then None
         else if p = 0 then Some (sorted ! 0)
         else if 0 \<le> kIndex \<and> nat kIndex < length sorted then Some (sorted ! nat kIndex)
         else None)"

definition mean :: "rat list \<Rightarrow> rat option" where
  "mean list = (if list = [] then None else Some (sum_list list / of_nat (length list)))"

subsection \<open>The end of main\<close>

text \<open>
  The \<open>forEach\<close> over the recent names. Deleting the name being visited does not
  disturb the iteration, so the names visited are those the set held at the start.
\<close>

definition reconcileName :: "string \<Rightarrow> stores \<Rightarrow> stores" where
  "reconcileName name st =
     (if Set_has (namesOfContributors st) name
      then st\<lparr> namesOfRecentContributors := Set_delete name (namesOfRecentContributors st) \<rparr>
      else st\<lparr> namesOfContributors := Set_add name (namesOfContributors st) \<rparr>)"

definition reconcile :: "stores \<Rightarrow> stores" where
  "reconcile st = fold reconcileName (namesOfRecentContributors st) st"

text \<open>
  The object that \<open>JSON.stringify\<close> receives; its key \<open>namesOfContributors\<close> is the
  field \<open>namesOfContributorsJSON\<close> here, the store having that name already.
\<close>

record metrics =
  namesOfAdopters :: "string list"
  namesOfContributorsJSON :: "string list"
  namesOfContributorsNew :: "string list"
  numberOfPullRequestNew :: nat
  p50NumberOfNewPullsPerWeek :: "rat option"
  p50NumberOfNewContributorsPerWeek :: "rat option"
  p50SecondsToClosePulls :: "rat option"
  p50SecondsToCloseIssues :: "rat option"
  meanNumberOfNewPullsPerWeek :: "rat option"
  meanNumberOfNewContributorsPerWeek :: "rat option"
  meanSecondsToClosePulls :: "rat option"
  meanSecondsToCloseIssues :: "rat option"

definition pullCounts :: "stores \<Rightarrow> rat list" where
  "pullCounts st = map of_nat (Object_values (bucketPullCount st))"

definition contributorCounts :: "stores \<Rightarrow> rat list" where
  "contributorCounts st =
     map (\<lambda>c. of_nat (Set_size c)) (Object_values (bucketNewContributors st))"

text \<open>The statistics are taken before the names are reconciled, as in \<open>main\<close>.\<close>

definition makeMetrics :: "string list \<Rightarrow> stores \<Rightarrow> metrics" where
  "makeMetrics adopterList st =
     (let st' = reconcile st in
      \<lparr> namesOfAdopters = adopterList,
        namesOfContributorsJSON = namesOfContributors st',
        namesOfContributorsNew = namesOfRecentContributors st',
        numberOfPullRequestNew = length (secondsToClosePulls st),
        p50NumberOfNewPullsPerWeek = percentile 50 (pullCounts st),
        p50NumberOfNewContributorsPerWeek = percentile 50 (contributorCounts st),
        p50SecondsToClosePulls = percentile 50 (secondsToClosePulls st),
        p50SecondsToCloseIssues = percentile 50 (secondsToCloseIssues st),
        meanNumberOfNewPullsPerWeek = mean (pullCounts st),
        meanNumberOfNewContributorsPerWeek = mean (contributorCounts st),
        meanSecondsToClosePulls = mean (secondsToClosePulls st),
        meanSecondsToCloseIssues = mean (secondsToCloseIssues st) \<rparr>)"

text \<open>
  \<open>main\<close> up to the value of \<open>metrics\<close>: the stores are filled, then the adopters are
  fetched; a rejection there rejects \<open>main\<close>, and no metrics are made.
\<close>

definition main :: "argv \<Rightarrow> Repo list \<Rightarrow> fetched \<Rightarrow> error + metrics" where
  "main args repos response =
     (let st = collectMetrics args repos
      in case (if withAdopterList args then snd (getAdopterList response) else Inr []) of
           Inl e \<Rightarrow> Inl e
         | Inr adopterList \<Rightarrow> Inr (makeMetrics adopterList st))"

text \<open>
  The last statement of \<open>main\<close>: with \<open>commitChanges\<close> the metrics are written to
  \<open>metrics.json\<close> of the repository, which accepts the write or rejects it (the calls
  of \<open>getCurrentMetricFileSha\<close> and \<open>createOrUpdateFileContents\<close>).
\<close>

datatype commit = Accepted | Rejected

definition commitMetrics :: "argv \<Rightarrow> commit \<Rightarrow> metrics \<Rightarrow> error + metrics option" where
  "commitMetrics args reply m =
     (if commitChanges args
      then (case reply of Accepted \<Rightarrow> Inr (Some m) | Rejected \<Rightarrow> Inl CommitError)
      else Inr None)"

text \<open>
  The whole of \<open>main\<close>: the lines of \<open>getAdopterList\<close> on the console (the progress
  lines of the repositories are left out), and the metrics written, if any.
\<close>

definition runMain ::
  "argv \<Rightarrow> Repo list \<Rightarrow> fetched \<Rightarrow> commit \<Rightarrow> console list \<times> (error + metrics option)" where
  "runMain args repos response reply =
     (if withAdopterList args then fst (getAdopterList response) else [],
      case main args repos response of
        Inl e \<Rightarrow> Inl e
      | Inr m \<Rightarrow> commitMetrics args reply m)"

section \<open>Notions the properties are stated with\<close>

text \<open>
  The author an event adds to the contributor stores, with the window flag of the item:
  the item is processed, its login is a non-empty string, and the login is no bot's.
\<close>

fun tracked :: "event \<Rightarrow> (bool \<times> string) option" where
  "tracked (PullSeen now pull) =
     (if truthyString (login pull) \<and> \<not> isContributorABot (the (login pull))
      then Some (isPullOrIssueWithinMetricsRange now pull, the (login pull)) else None)"
| "tracked (IssueSeen now issue) =
     (if \<not> pull_request issue \<and> truthyString (login issue)
         \<and> \<not> isContributorABot (the (login issue))
      then Some (isPullOrIssueWithinMetricsRange now issue, the (login issue)) else None)"

text \<open>The non-bot authors seen in a run, and those with an item inside (outside) the window.\<close>

definition nonBotAuthors :: "event list \<Rightarrow> string list" where
  "nonBotAuthors evs = map snd (List.map_filter tracked evs)"

definition authorsSeen :: "bool \<Rightarrow> event list \<Rightarrow> string list" where
  "authorsSeen inRange evs =
     map snd (filter (\<lambda>t. fst t = inRange) (List.map_filter tracked evs))"

text \<open>A sequence of calls of \<open>addNewContributorToBucket\<close>, each a key and a contributor.\<close>

definition addNewContributorsToBuckets ::
  "(string \<times> string) list \<Rightarrow> (string \<times> string list) list \<Rightarrow> (string \<times> string list) list" where
  "addNewContributorsToBuckets calls buckets =
     fold (\<lambda>(bucketKey, contributor). addNewContributorToBucket bucketKey contributor)
       calls buckets"

text \<open>The keys of the buckets whose new-contributor set has the author.\<close>

definition holders :: "string \<Rightarrow> (string \<times> string list) list \<Rightarrow> string list" where
  "holders a buckets = map fst (filter (\<lambda>p. a \<in> set (snd p)) buckets)"

text \<open>The first statement of \<open>addNewContributorToBucket\<close>, as a function of its own.\<close>

definition ensureBucket ::
  "string \<Rightarrow> (string \<times> string list) list \<Rightarrow> (string \<times> string list) list" where
  "ensureBucket k b = (if map_of b k = None then b @ [(k, [])] else b)"

definition noBots :: "(string \<times> string list) list \<Rightarrow> bool" where
  "noBots buckets = (\<forall>p \<in> set buckets. \<forall>x \<in> set (snd p). \<not> isContributorABot x)"

text \<open>
  A pull request that is inside the window, has a \<open>closed_at\<close>, and whose seconds to
  close are not zero.
\<close>

fun sampledPull :: "event \<Rightarrow> bool" where
  "sampledPull (PullSeen now pull) =
     (isPullOrIssueWithinMetricsRange now pull \<and> closed_at pull \<noteq> None
      \<and> getSecondsToClose pull \<noteq> Some 0)"
| "sampledPull (IssueSeen now issue) = False"

text \<open>The days of a month of the Gregorian calendar.\<close>

definition daysInMonth :: "int \<Rightarrow> int \<Rightarrow> int" where
  "daysInMonth y m =
     (if m = 2 then (if isLeapYear y then 29 else 28)
      else if m = 4 \<or> m = 6 \<or> m = 9 \<or> m = 11 then 30 else 31)"


text \<open>
  Concrete inputs: the timestamp \<open>YYYY-MM-DDTHH:MM:SSZ\<close> in a process whose zone is UTC;
  a local time, with its offset, in a process whose zone is America/New_York, whose
  changes of 2024 are the ones on 10 March, 07:00 UTC, and on 3 November, 06:00 UTC; an
  item of a named author that the issues endpoint does not mark as a pull request; and
  three command lines (\<open>--withMetrics\<close> alone, \<open>--withAdopterList\<close> alone, and the
  one of the daily workflow).
\<close>

abbreviation newYorkTime ::
  "int \<Rightarrow> int \<Rightarrow> int \<Rightarrow> int \<Rightarrow> int \<Rightarrow> int \<Rightarrow> int \<Rightarrow> DateTime" where
  "newYorkTime y mo d h mi s off \<equiv>
     \<lparr> year = y, month = mo, day = d, hour = h, minute = mi, second = s, millisecond = 0,
       offset = off, zone = (- 300, [(1710054000000, - 240), (1730613600000, - 300)]) \<rparr>"

abbreviation utcTime :: "int \<Rightarrow> int \<Rightarrow> int \<Rightarrow> int \<Rightarrow> int \<Rightarrow> int \<Rightarrow> DateTime" where
  "utcTime y mo d h mi s \<equiv>
     \<lparr> year = y, month = mo, day = d, hour = h, minute = mi, second = s, millisecond = 0,
       offset = 0, zone = (0, []) \<rparr>"

abbreviation itemBy :: "string \<Rightarrow> DateTime \<Rightarrow> DateTime option \<Rightarrow> GithubPullOrIssue" where
  "itemBy name createdAt closedAt \<equiv>
     \<lparr> login = Some name, created_at = createdAt, closed_at = closedAt, pull_request = False \<rparr>"

abbreviation metricsOnly :: argv where
  "metricsOnly \<equiv>
     \<lparr> commitChanges = False, withMetrics = True, withAdopterList = False, withSubset = False \<rparr>"

abbreviation dailyRun :: argv where
  "dailyRun \<equiv>
     \<lparr> commitChanges = True, withMetrics = True, withAdopterList = True, withSubset = False \<rparr>"

abbreviation adoptersOnly :: argv where
  "adoptersOnly \<equiv>
     \<lparr> commitChanges = False, withMetrics = False, withAdopterList = True, withSubset = False \<rparr>"

section \<open>Sets, objects and the stores\<close>

lemma set_Set_add [simp]: "set (Set_add x s) = insert x (set s)"
  by (auto simp: Set_add_def)

lemma distinct_Set_add [simp]: "distinct s \<Longrightarrow> distinct (Set_add x s)"
  by (simp add: Set_add_def)

lemma set_Set_delete [simp]: "set (Set_delete x s) = set s - {x}"
  by (auto simp: Set_delete_def)

lemma emptyStores_simps [simp]:
  "namesOfContributors emptyStores = []" "namesOfRecentContributors emptyStores = []"
  "secondsToClosePulls emptyStores = []" "secondsToCloseIssues emptyStores = []"
  "bucketPullCount emptyStores = []" "bucketNewContributors emptyStores = []"
  by (simp_all add: emptyStores_def)

lemma obj_set_absent: "map_of obj k = None \<Longrightarrow> obj_set k v obj = obj @ [(k, v)]"
  by (induction obj) (auto split: if_splits)

lemma obj_set_same: "map_of obj k = Some v \<Longrightarrow> obj_set k v obj = obj"
  by (induction obj) (auto split: if_splits)

lemma obj_set_keys:
  "map fst (obj_set k v obj) = (if map_of obj k = None then map fst obj @ [k] else map fst obj)"
  by (induction obj) (auto split: if_splits)

lemma obj_set_filter_length:
  "map_of obj k = Some s \<Longrightarrow>
   length (filter P (obj_set k v obj)) + (if P (k, s) then 1 else 0) =
     length (filter P obj) + (if P (k, v) then 1 else 0)"
  by (induction obj) (auto split: if_splits)

lemma map_of_obj_set: "map_of (obj_set k v obj) k = Some v"
  by (induction obj) auto

lemma obj_set_members: "p \<in> set (obj_set k v obj) \<Longrightarrow> p = (k, v) \<or> p \<in> set obj"
  by (induction obj) (auto split: if_splits)

lemma trackContributor_recent:
  "namesOfRecentContributors (trackContributor key r name st) =
     (if r then Set_add name (namesOfRecentContributors st) else namesOfRecentContributors st)"
  by (simp add: trackContributor_def Let_def)

lemma trackContributor_known:
  "namesOfContributors (trackContributor key r name st) =
     (if r then namesOfContributors st else Set_add name (namesOfContributors st))"
  by (simp add: trackContributor_def Let_def)

lemma trackContributor_buckets:
  "bucketNewContributors (trackContributor key r name st) =
     addNewContributorToBucket key name (bucketNewContributors st)"
  by (simp add: trackContributor_def Let_def)

lemma trackContributor_pulls [simp]:
  "secondsToClosePulls (trackContributor key r name st) = secondsToClosePulls st"
  by (simp add: trackContributor_def Let_def)

lemma trackContributor_issues [simp]:
  "secondsToCloseIssues (trackContributor key r name st) = secondsToCloseIssues st"
  by (simp add: trackContributor_def Let_def)

lemma trackContributor_pullCount [simp]:
  "bucketPullCount (trackContributor key r name st) = bucketPullCount st"
  by (simp add: trackContributor_def Let_def)

section \<open>The contributor names\<close>

lemma step_recent:
  "namesOfRecentContributors (step ev st) =
     (case tracked ev of Some (True, name) \<Rightarrow> Set_add name (namesOfRecentContributors st)
      | _ \<Rightarrow> namesOfRecentContributors st)"
  by (cases ev)
    (simp_all add: getPullMetrics_def getIssueMetrics_def Let_def trackContributor_recent)

lemma step_known:
  "namesOfContributors (step ev st) =
     (case tracked ev of Some (False, name) \<Rightarrow> Set_add name (namesOfContributors st)
      | _ \<Rightarrow> namesOfContributors st)"
  by (cases ev)
    (simp_all add: getPullMetrics_def getIssueMetrics_def Let_def trackContributor_known)

lemma authorsSeen_Cons:
  "authorsSeen r (ev # evs) =
     (case tracked ev of Some (r', name) \<Rightarrow> (if r' = r then [name] else []) | None \<Rightarrow> [])
     @ authorsSeen r evs"
  by (simp add: authorsSeen_def List.map_filter_simps split: option.splits)

lemma fold_step_recent:
  "set (namesOfRecentContributors (fold step evs st)) =
     set (namesOfRecentContributors st) \<union> set (authorsSeen True evs)"
proof (induction evs arbitrary: st)
  case Nil
  show ?case by (simp add: authorsSeen_def List.map_filter_simps)
next
  case (Cons ev evs)
  show ?case
    by (auto simp: Cons.IH step_recent authorsSeen_Cons
        split: option.splits bool.splits if_splits)
qed

lemma fold_step_known:
  "set (namesOfContributors (fold step evs st)) =
     set (namesOfContributors st) \<union> set (authorsSeen False evs)"
proof (induction evs arbitrary: st)
  case Nil
  show ?case by (simp add: authorsSeen_def List.map_filter_simps)
next
  case (Cons ev evs)
  show ?case
    by (auto simp: Cons.IH step_known authorsSeen_Cons
        split: option.splits bool.splits if_splits)
qed

lemma fold_step_recent_distinct:
  "distinct (namesOfRecentContributors st) \<Longrightarrow>
   distinct (namesOfRecentContributors (fold step evs st))"
proof (induction evs arbitrary: st)
  case Nil
  then show ?case by simp
next
  case (Cons ev evs)
  have "distinct (namesOfRecentContributors (step ev st))"
    using Cons.prems by (simp add: step_recent split: option.splits bool.splits)
  then show ?case using Cons.IH by simp
qed

lemma reconcileName_known:
  "set (namesOfContributors (reconcileName n st)) = insert n (set (namesOfContributors st))"
  by (auto simp: reconcileName_def Set_has_def)

lemma reconcileName_recent:
  "set (namesOfRecentContributors (reconcileName n st)) =
     (if n \<in> set (namesOfContributors st) then set (namesOfRecentContributors st) - {n}
      else set (namesOfRecentContributors st))"
  by (auto simp: reconcileName_def Set_has_def)

lemma fold_reconcileName_known:
  "set (namesOfContributors (fold reconcileName ns st)) = set (namesOfContributors st) \<union> set ns"
  by (induction ns arbitrary: st) (auto simp: reconcileName_known)

text \<open>A name is visited once: the names visited are those of a set.\<close>

lemma fold_reconcileName_recent:
  "distinct ns \<Longrightarrow>
   set (namesOfRecentContributors (fold reconcileName ns st)) =
     set (namesOfRecentContributors st) - (set ns \<inter> set (namesOfContributors st))"
proof (induction ns arbitrary: st)
  case Nil
  show ?case by simp
next
  case (Cons n ns)
  then have d: "distinct ns" and n: "n \<notin> set ns" by simp_all
  show ?case
    using n by (auto simp: Cons.IH [OF d] reconcileName_recent reconcileName_known)
qed

lemma reconcile_known:
  "set (namesOfContributors (reconcile st)) =
     set (namesOfContributors st) \<union> set (namesOfRecentContributors st)"
  by (simp add: reconcile_def fold_reconcileName_known)

lemma reconcile_recent:
  "distinct (namesOfRecentContributors st) \<Longrightarrow>
   set (namesOfRecentContributors (reconcile st)) =
     set (namesOfRecentContributors st) - set (namesOfContributors st)"
  by (auto simp: reconcile_def fold_reconcileName_recent)

lemma nonBotAuthors_split:
  "set (nonBotAuthors evs) = set (authorsSeen True evs) \<union> set (authorsSeen False evs)"
  by (auto simp: nonBotAuthors_def authorsSeen_def)

lemma collectMetrics_recent:
  "distinct (namesOfRecentContributors (collectMetrics args repos))"
  "set (namesOfRecentContributors (collectMetrics args repos)) =
     set (authorsSeen True (runEvents args repos))"
  unfolding collectMetrics_def
  by (rule fold_step_recent_distinct, simp) (simp add: fold_step_recent)

lemma collectMetrics_known:
  "set (namesOfContributors (collectMetrics args repos)) =
     set (authorsSeen False (runEvents args repos))"
  unfolding collectMetrics_def by (simp add: fold_step_known)

text \<open>
  C1, as the code has it. When all items are processed and the recent names have been
  reconciled once, the recent names are the non-bot authors with an item inside the
  window and none outside it, the set of contributors holds every non-bot author seen
  during the run, the recent names among them, and the union of the two sets is the set
  of all non-bot authors seen.
\<close>

theorem reconcile_sets:
  "set (namesOfRecentContributors (reconcile (collectMetrics args repos))) =
     set (authorsSeen True (runEvents args repos)) - set (authorsSeen False (runEvents args repos))
   \<and> set (namesOfContributors (reconcile (collectMetrics args repos))) =
     set (nonBotAuthors (runEvents args repos))
   \<and> set (namesOfRecentContributors (reconcile (collectMetrics args repos)))
       \<subseteq> set (namesOfContributors (reconcile (collectMetrics args repos)))
   \<and> set (namesOfContributors (reconcile (collectMetrics args repos)))
       \<union> set (namesOfRecentContributors (reconcile (collectMetrics args repos))) =
     set (nonBotAuthors (runEvents args repos))"
  unfolding reconcile_recent [OF collectMetrics_recent(1)] reconcile_known
    collectMetrics_recent(2) collectMetrics_known nonBotAuthors_split
  by blast

text \<open>
  Two pull requests processed on 2024-03-31: bob's, created 40 days before, and alice's,
  created 10 days before, both closed two days after they were created.
\<close>

theorem reconcile_sets_witness:
  "namesOfContributors (reconcile (collectMetrics metricsOnly
      [\<lparr> pullPages = [[
           (utcTime 2024 3 31 0 0 0,
            itemBy ''bob'' (utcTime 2024 2 20 0 0 0) (Some (utcTime 2024 2 22 0 0 0))),
           (utcTime 2024 3 31 0 0 0,
            itemBy ''alice'' (utcTime 2024 3 21 0 0 0) (Some (utcTime 2024 3 23 0 0 0)))]],
         issuePages = [] \<rparr>])) = [''bob'', ''alice'']
   \<and> set (namesOfRecentContributors (reconcile (collectMetrics metricsOnly
      [\<lparr> pullPages = [[
           (utcTime 2024 3 31 0 0 0,
            itemBy ''bob'' (utcTime 2024 2 20 0 0 0) (Some (utcTime 2024 2 22 0 0 0))),
           (utcTime 2024 3 31 0 0 0,
            itemBy ''alice'' (utcTime 2024 3 21 0 0 0) (Some (utcTime 2024 3 23 0 0 0)))]],
         issuePages = [] \<rparr>])))
     \<subseteq> set (namesOfContributors (reconcile (collectMetrics metricsOnly
      [\<lparr> pullPages = [[
           (utcTime 2024 3 31 0 0 0,
            itemBy ''bob'' (utcTime 2024 2 20 0 0 0) (Some (utcTime 2024 2 22 0 0 0))),
           (utcTime 2024 3 31 0 0 0,
            itemBy ''alice'' (utcTime 2024 3 21 0 0 0) (Some (utcTime 2024 3 23 0 0 0)))]],
         issuePages = [] \<rparr>])))"
  (is "?known = _ \<and> ?sub")
proof -
  have "?known = [''bob'', ''alice'']" by code_simp
  moreover have ?sub
    using reconcile_sets [of metricsOnly "[\<lparr> pullPages = [[
           (utcTime 2024 3 31 0 0 0,
            itemBy ''bob'' (utcTime 2024 2 20 0 0 0) (Some (utcTime 2024 2 22 0 0 0))),
           (utcTime 2024 3 31 0 0 0,
            itemBy ''alice'' (utcTime 2024 3 21 0 0 0) (Some (utcTime 2024 3 23 0 0 0)))]],
         issuePages = [] \<rparr>]"]
    by blast
  ultimately show ?thesis by blast
qed

text \<open>
  C1 as stated fails: one pull request of alice, created 11 days before it is processed,
  leaves her name in both sets.
\<close>

theorem recent_names_stay_known:
  "set (namesOfContributors (reconcile (collectMetrics metricsOnly
      [\<lparr> pullPages = [[
           (utcTime 2024 3 31 0 0 0,
            itemBy ''alice'' (utcTime 2024 3 20 0 0 0) (Some (utcTime 2024 3 22 0 0 0)))]],
         issuePages = [] \<rparr>])))
   \<inter> set (namesOfRecentContributors (reconcile (collectMetrics metricsOnly
      [\<lparr> pullPages = [[
           (utcTime 2024 3 31 0 0 0,
            itemBy ''alice'' (utcTime 2024 3 20 0 0 0) (Some (utcTime 2024 3 22 0 0 0)))]],
         issuePages = [] \<rparr>]))) \<noteq> {}"
  by code_simp

section \<open>Closure samples\<close>

lemma truthyNumber_getSecondsToClose:
  "truthyNumber (getSecondsToClose item) =
     (closed_at item \<noteq> None \<and> getSecondsToClose item \<noteq> Some 0)"
  by (cases "closed_at item") (simp_all add: getSecondsToClose_def)

lemma getPullMetrics_samples:
  "secondsToClosePulls (getPullMetrics now pull st) =
     (if isPullOrIssueWithinMetricsRange now pull \<and> truthyNumber (getSecondsToClose pull)
      then secondsToClosePulls st @ [the (getSecondsToClose pull)]
      else secondsToClosePulls st)"
  by (simp add: getPullMetrics_def Let_def)

lemma getIssueMetrics_samples:
  "secondsToCloseIssues (getIssueMetrics now issue st) =
     (if isPullOrIssueWithinMetricsRange now issue \<and> truthyNumber (getSecondsToClose issue)
      then secondsToCloseIssues st @ [the (getSecondsToClose issue)]
      else secondsToCloseIssues st)"
  by (simp add: getIssueMetrics_def Let_def)

lemma getIssueMetrics_pulls [simp]:
  "secondsToClosePulls (getIssueMetrics now issue st) = secondsToClosePulls st"
  by (simp add: getIssueMetrics_def Let_def)

text \<open>An item without \<open>closed_at\<close> has no seconds to close and adds no sample.\<close>

lemma open_item_no_sample:
  assumes "closed_at item = None"
  shows "getSecondsToClose item = None"
    and "secondsToClosePulls (getPullMetrics now item st) = secondsToClosePulls st"
    and "secondsToCloseIssues (getIssueMetrics now item st) = secondsToCloseIssues st"
  using assms
  by (simp_all add: getSecondsToClose_def getPullMetrics_samples getIssueMetrics_samples)

text \<open>An item outside the window has its seconds to close computed, and adds no sample.\<close>

lemma out_of_window_no_sample:
  assumes "\<not> isPullOrIssueWithinMetricsRange now item"
  shows "secondsToClosePulls (getPullMetrics now item st) = secondsToClosePulls st"
    and "secondsToCloseIssues (getIssueMetrics now item st) = secondsToCloseIssues st"
  using assms by (simp_all add: getPullMetrics_samples getIssueMetrics_samples)

text \<open>A closed item inside the window adds its seconds to close when they are not zero.\<close>

lemma closed_in_window_sample:
  assumes "isPullOrIssueWithinMetricsRange now item"
    and "closed_at item = Some c" and "diffSeconds c (created_at item) \<noteq> 0"
  shows "secondsToClosePulls (getPullMetrics now item st) =
           secondsToClosePulls st @ [diffSeconds c (created_at item)]"
    and "secondsToCloseIssues (getIssueMetrics now item st) =
           secondsToCloseIssues st @ [diffSeconds c (created_at item)]"
  using assms
  by (simp_all add: getPullMetrics_samples getIssueMetrics_samples getSecondsToClose_def)

text \<open>
  C2 at a pull request closed in the second it was created (2024-03-20 10:15:30 UTC) and
  processed eleven days later: it is inside the window and has a \<open>closed_at\<close>, its
  seconds to close are 0, and the test \<open>isPullInRange && secondsToClose\<close> takes 0 for
  false, so the sample list stays empty.
\<close>

theorem zero_duration_sample_dropped:
  "isPullOrIssueWithinMetricsRange (utcTime 2024 3 31 0 0 0)
     (itemBy ''alice'' (utcTime 2024 3 20 10 15 30) (Some (utcTime 2024 3 20 10 15 30)))
   \<and> getSecondsToClose
     (itemBy ''alice'' (utcTime 2024 3 20 10 15 30) (Some (utcTime 2024 3 20 10 15 30))) = Some 0
   \<and> secondsToClosePulls (getPullMetrics (utcTime 2024 3 31 0 0 0)
     (itemBy ''alice'' (utcTime 2024 3 20 10 15 30) (Some (utcTime 2024 3 20 10 15 30)))
     emptyStores) = []"
  by code_simp

section \<open>Bucket keys\<close>

text \<open>
  C3 at a pull request created on Monday 2024-12-30 at noon UTC, a day of ISO week 1 of
  2025: the key is made of \<open>dateTime.year\<close>, the calendar year, and not of
  \<open>dateTime.weekYear\<close>, so it is the key of the week of 2024-01-01 too.
\<close>

theorem bucket_key_uses_calendar_year:
  "getBucketKey (itemBy ''alice'' (utcTime 2024 12 30 12 0 0) None) = ''2024:1''
   \<and> weekYear (utcTime 2024 12 30 12 0 0) = 2025
   \<and> weekNumber (utcTime 2024 12 30 12 0 0) = 1
   \<and> getBucketKey (itemBy ''alice'' (utcTime 2024 1 1 12 0 0) None) = ''2024:1''"
  by code_simp

section \<open>The adopter list\<close>

text \<open>
  C4, as the code has it. When the fetched document does not parse, or parses to a value
  without a list of contributors, \<open>getAdopterList\<close> writes the error to the console and
  returns the empty list, and \<open>main\<close> goes on: it makes the metrics of the stores with an
  empty list of adopters and, with \<open>commitChanges\<close>, writes them.
\<close>

theorem parse_failure_gives_no_adopters:
  assumes "y = YamlThrows \<or> y = YamlValue None"
  shows "getAdopterList (ResponseText y) = ([ConsoleError ''Error parsing YAML:''], Inr [])
    \<and> main args repos (ResponseText y) = Inr (makeMetrics [] (collectMetrics args repos))
    \<and> runMain args repos (ResponseText y) reply =
        (if withAdopterList args then [ConsoleError ''Error parsing YAML:''] else [],
         if commitChanges args
         then (case reply of
                 Accepted \<Rightarrow> Inr (Some (makeMetrics [] (collectMetrics args repos)))
               | Rejected \<Rightarrow> Inl CommitError)
         else Inr None)"
  using assms by (auto simp: main_def runMain_def commitMetrics_def)

text \<open>
  The command line of the daily workflow, on 2024-03-31: a pull request of bob, created
  40 days before, and one of alice, created 10 days before, both closed after two days;
  the adopter document does not parse. The error is on the console and the metrics are
  written, with no adopter and with the 172800 seconds of alice's pull request.
\<close>

theorem parse_failure_gives_no_adopters_witness:
  "runMain dailyRun
      [\<lparr> pullPages = [[
           (utcTime 2024 3 31 0 0 0,
            itemBy ''bob'' (utcTime 2024 2 20 0 0 0) (Some (utcTime 2024 2 22 0 0 0))),
           (utcTime 2024 3 31 0 0 0,
            itemBy ''alice'' (utcTime 2024 3 21 0 0 0) (Some (utcTime 2024 3 23 0 0 0)))]],
         issuePages = [] \<rparr>] (ResponseText YamlThrows) Accepted =
     ([ConsoleError ''Error parsing YAML:''],
      Inr (Some (makeMetrics [] (collectMetrics dailyRun
      [\<lparr> pullPages = [[
           (utcTime 2024 3 31 0 0 0,
            itemBy ''bob'' (utcTime 2024 2 20 0 0 0) (Some (utcTime 2024 2 22 0 0 0))),
           (utcTime 2024 3 31 0 0 0,
            itemBy ''alice'' (utcTime 2024 3 21 0 0 0) (Some (utcTime 2024 3 23 0 0 0)))]],
         issuePages = [] \<rparr>]))))
   \<and> namesOfAdopters (makeMetrics [] (collectMetrics dailyRun
      [\<lparr> pullPages = [[
           (utcTime 2024 3 31 0 0 0,
            itemBy ''bob'' (utcTime 2024 2 20 0 0 0) (Some (utcTime 2024 2 22 0 0 0))),
           (utcTime 2024 3 31 0 0 0,
            itemBy ''alice'' (utcTime 2024 3 21 0 0 0) (Some (utcTime 2024 3 23 0 0 0)))]],
         issuePages = [] \<rparr>])) = []
   \<and> numberOfPullRequestNew (makeMetrics [] (collectMetrics dailyRun
      [\<lparr> pullPages = [[
           (utcTime 2024 3 31 0 0 0,
            itemBy ''bob'' (utcTime 2024 2 20 0 0 0) (Some (utcTime 2024 2 22 0 0 0))),
           (utcTime 2024 3 31 0 0 0,
            itemBy ''alice'' (utcTime 2024 3 21 0 0 0) (Some (utcTime 2024 3 23 0 0 0)))]],
         issuePages = [] \<rparr>])) = 1
   \<and> meanSecondsToClosePulls (makeMetrics [] (collectMetrics dailyRun
      [\<lparr> pullPages = [[
           (utcTime 2024 3 31 0 0 0,
            itemBy ''bob'' (utcTime 2024 2 20 0 0 0) (Some (utcTime 2024 2 22 0 0 0))),
           (utcTime 2024 3 31 0 0 0,
            itemBy ''alice'' (utcTime 2024 3 21 0 0 0) (Some (utcTime 2024 3 23 0 0 0)))]],
         issuePages = [] \<rparr>])) = Some 172800"
  (is "?run \<and> ?adopters \<and> ?number \<and> ?mean")
proof -
  have y: "YamlThrows = YamlThrows \<or> YamlThrows = YamlValue None" by simp
  have r: ?run
    using parse_failure_gives_no_adopters [OF y, of dailyRun
      "[\<lparr> pullPages = [[
           (utcTime 2024 3 31 0 0 0,
            itemBy ''bob'' (utcTime 2024 2 20 0 0 0) (Some (utcTime 2024 2 22 0 0 0))),
           (utcTime 2024 3 31 0 0 0,
            itemBy ''alice'' (utcTime 2024 3 21 0 0 0) (Some (utcTime 2024 3 23 0 0 0)))]],
         issuePages = [] \<rparr>]" Accepted]
    by simp
  have a: ?adopters by (simp add: makeMetrics_def Let_def)
  have n: ?number by code_simp
  have m: ?mean by code_simp
  show ?thesis using r a n m by blast
qed

text \<open>
  C4 as stated fails: when the fetch rejects, \<open>getAdopterList\<close> returns no list and
  \<open>main\<close> ends with the error, without metrics; nothing is written.
\<close>

theorem network_failure_rejects_main:
  "getAdopterList FetchRejects = ([], Inl NetworkError)
   \<and> main adoptersOnly [] FetchRejects = Inl NetworkError
   \<and> runMain dailyRun [] FetchRejects Accepted = ([], Inl NetworkError)"
  by (simp add: main_def runMain_def)

section \<open>Statistics\<close>

lemma rank_50_bounds:
  "0 < (n::int) \<Longrightarrow> 0 \<le> (n * 50 + 99) div 100 - 1 \<and> (n * 50 + 99) div 100 - 1 < n"
  by linarith

text \<open>On samples there are, the median is one of them and the mean exists.\<close>

lemma percentile_50_some:
  assumes "list \<noteq> []"
  shows "\<exists>x \<in> set list. percentile 50 list = Some x"
proof -
  let ?n = "length (sort list)"
  let ?k = "(int ?n * int 50 + 99) div 100 - 1"
  have "0 < int ?n" using assms by simp
  then have "0 \<le> ?k \<and> ?k < int ?n" using rank_50_bounds [of "int ?n"] by simp
  then have k: "0 \<le> ?k \<and> nat ?k < ?n" by linarith
  have ne: "sort list \<noteq> []"
    using assms by (metis length_sort length_0_conv)
  have "percentile 50 list = Some (sort list ! nat ?k)"
    using ne k unfolding percentile_def Let_def by simp
  moreover have "sort list ! nat ?k \<in> set (sort list)"
    using k by (intro nth_mem) simp
  ultimately show ?thesis by auto
qed

lemma mean_some: "list \<noteq> [] \<Longrightarrow> mean list = Some (sum_list list / of_nat (length list))"
  by (simp add: mean_def)

text \<open>
  C5. For each of the four sample collections of the metrics (seconds to close of pull
  requests, of issues, pull requests per week, new contributors per week): when it is
  empty, its 50th percentile and its mean are absent.
\<close>

theorem empty_samples_no_statistic:
  "(secondsToClosePulls st = [] \<longrightarrow>
      p50SecondsToClosePulls (makeMetrics adopters st) = None
      \<and> meanSecondsToClosePulls (makeMetrics adopters st) = None)
   \<and> (secondsToCloseIssues st = [] \<longrightarrow>
      p50SecondsToCloseIssues (makeMetrics adopters st) = None
      \<and> meanSecondsToCloseIssues (makeMetrics adopters st) = None)
   \<and> (Object_values (bucketPullCount st) = [] \<longrightarrow>
      p50NumberOfNewPullsPerWeek (makeMetrics adopters st) = None
      \<and> meanNumberOfNewPullsPerWeek (makeMetrics adopters st) = None)
   \<and> (Object_values (bucketNewContributors st) = [] \<longrightarrow>
      p50NumberOfNewContributorsPerWeek (makeMetrics adopters st) = None
      \<and> meanNumberOfNewContributorsPerWeek (makeMetrics adopters st) = None)"
  by (simp add: makeMetrics_def Let_def percentile_def mean_def pullCounts_def
      contributorCounts_def)

text \<open>A run without \<open>--withMetrics\<close>: the four collections are empty.\<close>

theorem empty_samples_no_statistic_witness:
  "secondsToClosePulls (collectMetrics adoptersOnly []) = []
   \<and> secondsToCloseIssues (collectMetrics adoptersOnly []) = []
   \<and> Object_values (bucketPullCount (collectMetrics adoptersOnly [])) = []
   \<and> Object_values (bucketNewContributors (collectMetrics adoptersOnly [])) = []
   \<and> p50SecondsToClosePulls (makeMetrics [] (collectMetrics adoptersOnly [])) = None
   \<and> meanSecondsToClosePulls (makeMetrics [] (collectMetrics adoptersOnly [])) = None
   \<and> p50SecondsToCloseIssues (makeMetrics [] (collectMetrics adoptersOnly [])) = None
   \<and> meanSecondsToCloseIssues (makeMetrics [] (collectMetrics adoptersOnly [])) = None
   \<and> p50NumberOfNewPullsPerWeek (makeMetrics [] (collectMetrics adoptersOnly [])) = None
   \<and> meanNumberOfNewPullsPerWeek (makeMetrics [] (collectMetrics adoptersOnly [])) = None
   \<and> p50NumberOfNewContributorsPerWeek (makeMetrics [] (collectMetrics adoptersOnly [])) = None
   \<and> meanNumberOfNewContributorsPerWeek (makeMetrics [] (collectMetrics adoptersOnly [])) = None"
proof -
  have e: "collectMetrics adoptersOnly [] = emptyStores"
    by (simp add: collectMetrics_def runEvents_def)
  show ?thesis
    using empty_samples_no_statistic [of emptyStores "[]"]
    by (simp add: e Object_values_def)
qed

section \<open>The calendar\<close>

text \<open>
  The count of days is the one of the Gregorian calendar: it is 0 on 1970-01-01 and grows
  by one from a day to the next, inside a month, from the last day of a month to the
  first of the next, and from 31 December to 1 January.
\<close>

lemma daysSinceEpoch_epoch: "daysSinceEpoch 1970 1 1 = 0"
  by code_simp

lemma daysSinceEpoch_next_day: "daysSinceEpoch y m (d + 1) = daysSinceEpoch y m d + 1"
  by (simp add: daysSinceEpoch_def computeOrdinal_def)

lemma ladder_nth:
  "nonLeapLadder ! 0 = 0" "nonLeapLadder ! Suc 0 = 31" "nonLeapLadder ! 2 = 59"
  "nonLeapLadder ! 3 = 90" "nonLeapLadder ! 4 = 120" "nonLeapLadder ! 5 = 151"
  "nonLeapLadder ! 6 = 181" "nonLeapLadder ! 7 = 212" "nonLeapLadder ! 8 = 243"
  "nonLeapLadder ! 9 = 273" "nonLeapLadder ! 10 = 304" "nonLeapLadder ! 11 = 334"
  "leapLadder ! 0 = 0" "leapLadder ! Suc 0 = 31" "leapLadder ! 2 = 60"
  "leapLadder ! 3 = 91" "leapLadder ! 4 = 121" "leapLadder ! 5 = 152"
  "leapLadder ! 6 = 182" "leapLadder ! 7 = 213" "leapLadder ! 8 = 244"
  "leapLadder ! 9 = 274" "leapLadder ! 10 = 305" "leapLadder ! 11 = 335"
  by (simp_all add: nonLeapLadder_def leapLadder_def)

lemma daysSinceEpoch_next_month:
  assumes "1 \<le> m" and "m < 12"
  shows "daysSinceEpoch y (m + 1) 1 = daysSinceEpoch y m (daysInMonth y m) + 1"
proof -
  from assms have "m = 1 \<or> m = 2 \<or> m = 3 \<or> m = 4 \<or> m = 5 \<or> m = 6 \<or> m = 7 \<or> m = 8
      \<or> m = 9 \<or> m = 10 \<or> m = 11"
    by arith
  then show ?thesis
    by (elim disjE) (simp_all add: daysSinceEpoch_def computeOrdinal_def daysInMonth_def ladder_nth)
qed

lemma div_pred:
  assumes "0 < (n::int)"
  shows "(y - 1) div n = (if y mod n = 0 then y div n - 1 else y div n)"
proof (cases "y mod n = 0")
  case True
  have e: "y - 1 = n * (y div n - 1) + (n - 1)"
    using True mult_div_mod_eq [of n y] by (simp add: algebra_simps)
  have "(y - 1) div n = y div n - 1"
    by (rule int_div_pos_eq [OF e]) (use assms in simp_all)
  then show ?thesis using True by simp
next
  case False
  have r: "0 \<le> y mod n" "y mod n < n" using assms by simp_all
  have e: "y - 1 = n * (y div n) + (y mod n - 1)"
    using mult_div_mod_eq [of n y] by simp
  have "(y - 1) div n = y div n"
    by (rule int_div_pos_eq [OF e]) (use r False in simp_all)
  then show ?thesis using False by simp
qed

lemma mod_400_100: "(y::int) mod 400 = 0 \<Longrightarrow> y mod 100 = 0"
proof -
  assume "y mod 400 = 0"
  then have "400 dvd y" by (simp add: mod_eq_0_iff_dvd)
  moreover have "(100::int) dvd 400" by simp
  ultimately have "100 dvd y" using dvd_trans by blast
  then show ?thesis by (simp add: mod_eq_0_iff_dvd)
qed

lemma mod_100_4: "(y::int) mod 100 = 0 \<Longrightarrow> y mod 4 = 0"
proof -
  assume "y mod 100 = 0"
  then have "100 dvd y" by (simp add: mod_eq_0_iff_dvd)
  moreover have "(4::int) dvd 100" by simp
  ultimately have "4 dvd y" using dvd_trans by blast
  then show ?thesis by (simp add: mod_eq_0_iff_dvd)
qed

lemma leapsBefore_next: "leapsBefore (y + 1) = leapsBefore y + (if isLeapYear y then 1 else 0)"
proof -
  have a: "(y - 1) div 4 = (if y mod 4 = 0 then y div 4 - 1 else y div 4)"
    by (rule div_pred) simp
  have b: "(y - 1) div 100 = (if y mod 100 = 0 then y div 100 - 1 else y div 100)"
    by (rule div_pred) simp
  have c: "(y - 1) div 400 = (if y mod 400 = 0 then y div 400 - 1 else y div 400)"
    by (rule div_pred) simp
  have l: "leapsBefore (y + 1) = y div 4 - y div 100 + y div 400"
    by (simp add: leapsBefore_def)
  show ?thesis
  proof (cases "y mod 4 = 0")
    case False
    have n100: "y mod 100 \<noteq> 0"
    proof
      assume "y mod 100 = 0"
      then have "y mod 4 = 0" by (rule mod_100_4)
      with False show False by (rule notE)
    qed
    have n400: "y mod 400 \<noteq> 0"
    proof
      assume "y mod 400 = 0"
      then have "y mod 100 = 0" by (rule mod_400_100)
      with n100 show False by (rule notE)
    qed
    from n100 n400 show ?thesis
      using False unfolding l leapsBefore_def isLeapYear_def a b c by simp
  next
    case 4: True
    show ?thesis
    proof (cases "y mod 100 = 0")
      case False
      have "y mod 400 \<noteq> 0"
      proof
        assume "y mod 400 = 0"
        then have "y mod 100 = 0" by (rule mod_400_100)
        with False show False by (rule notE)
      qed
      then show ?thesis
        using 4 False unfolding l leapsBefore_def isLeapYear_def a b c by simp
    next
      case True
      then show ?thesis
        using 4 unfolding l leapsBefore_def isLeapYear_def a b c by simp
    qed
  qed
qed

lemma daysSinceEpoch_next_year: "daysSinceEpoch (y + 1) 1 1 = daysSinceEpoch y 12 31 + 1"
  by (simp add: daysSinceEpoch_def computeOrdinal_def leapsBefore_next ladder_nth)

section \<open>The window\<close>

text \<open>Instants of the model against the clock: known values of the Unix time.\<close>

lemma toMillis_known:
  "toMillis (utcTime 1970 1 1 0 0 0) = 0"
  "toMillis (utcTime 2024 3 31 0 0 0) = 1711843200000"
  "toMillis (utcTime 2025 1 14 8 30 15) = 1736843415000"
  "toMillis (newYorkTime 2024 2 20 12 0 0 (- 300)) = toMillis (utcTime 2024 2 20 17 0 0)"
  "toMillis (newYorkTime 2024 3 21 12 30 0 (- 240)) = toMillis (utcTime 2024 3 21 16 30 0)"
  by code_simp+











text \<open>
  The other way round, after the clocks went back: an item created on 20 October 2024
  at 12:00 (16:00 UTC) and processed on 19 November at 11:00 (16:00 UTC), exactly 30
  times 24 hours later, is inside the window, its age being 29 local days and 23 hours.
\<close>

lemma thirty_days_elapsed_in_window:
  "toMillis (newYorkTime 2024 11 19 11 0 0 (- 300))
     - toMillis (created_at (itemBy ''a'' (newYorkTime 2024 10 20 12 0 0 (- 240)) None))
     = 30 * 86400000
   \<and> isPullOrIssueWithinMetricsRange (newYorkTime 2024 11 19 11 0 0 (- 300))
       (itemBy ''a'' (newYorkTime 2024 10 20 12 0 0 (- 240)) None)"
  by code_simp

section \<open>New contributors per bucket\<close>

lemma map_of_ensureBucket:
  "map_of (ensureBucket k b) k = Some (case map_of b k of None \<Rightarrow> [] | Some s \<Rightarrow> s)"
  by (auto simp: ensureBucket_def map_add_def split: option.splits)

lemma ensureBucket_filter:
  "filter (\<lambda>p. a \<in> set (snd p)) (ensureBucket k b) = filter (\<lambda>p. a \<in> set (snd p)) b"
  by (simp add: ensureBucket_def)

text \<open>The three statements of \<open>addNewContributorToBucket\<close>, one after the other.\<close>

lemma addNewContributorToBucket_eq:
  "addNewContributorToBucket k c b =
     (if \<exists>p \<in> set (ensureBucket k b). c \<in> set (snd p) then ensureBucket k b
      else obj_set k (Set_add c (the (map_of (ensureBucket k b) k))) (ensureBucket k b))"
proof -
  have e: "obj_set k (case obj_get b k of Some s \<Rightarrow> s | None \<Rightarrow> []) b = ensureBucket k b"
    by (auto simp: ensureBucket_def obj_get_def obj_set_absent obj_set_same)
  have m: "map_of (ensureBucket k b) k \<noteq> None"
    by (simp add: map_of_ensureBucket)
  show ?thesis
    using m unfolding addNewContributorToBucket_def e Let_def
    by (auto simp: list_ex_iff Object_values_def Set_has_def obj_get_def)
qed

lemma addNew_keys:
  "distinct (map fst b) \<Longrightarrow> distinct (map fst (addNewContributorToBucket k c b))"
  by (auto simp: addNewContributorToBucket_eq obj_set_keys ensureBucket_def map_of_eq_None_iff)

lemma addNew_holders:
  assumes "length (holders a b) \<le> 1"
  shows "length (holders a (addNewContributorToBucket k c b)) \<le> 1"
proof (cases "\<exists>p \<in> set (ensureBucket k b). c \<in> set (snd p)")
  case True
  then show ?thesis
    using assms by (simp add: addNewContributorToBucket_eq holders_def ensureBucket_filter)
next
  case False
  let ?b = "ensureBucket k b"
  obtain s where s: "map_of ?b k = Some s" by (simp add: map_of_ensureBucket)
  have eq: "addNewContributorToBucket k c b = obj_set k (Set_add c s) ?b"
    using False s by (simp add: addNewContributorToBucket_eq)
  note L = obj_set_filter_length [OF s, of "\<lambda>p. a \<in> set (snd p)" "Set_add c s"]
  show ?thesis
  proof (cases "a = c")
    case True
    have "filter (\<lambda>p. a \<in> set (snd p)) ?b = []"
      using False True by (auto simp: filter_empty_conv)
    then show ?thesis using L True by (simp add: eq holders_def)
  next
    case False
    then show ?thesis using L assms
      by (simp add: eq holders_def ensureBucket_filter)
  qed
qed

lemma fold_addNew_invariant:
  "distinct (map fst b) \<Longrightarrow> length (holders a b) \<le> 1 \<Longrightarrow>
   distinct (map fst (addNewContributorsToBuckets calls b))
   \<and> length (holders a (addNewContributorsToBuckets calls b)) \<le> 1"
proof (induction calls arbitrary: b)
  case Nil
  then show ?case by (simp add: addNewContributorsToBuckets_def)
next
  case (Cons call calls)
  obtain k c where call: "call = (k, c)" by (cases call)
  have d: "distinct (map fst (addNewContributorToBucket k c b))"
    using Cons.prems(1) by (rule addNew_keys)
  have h: "length (holders a (addNewContributorToBucket k c b)) \<le> 1"
    using Cons.prems(2) by (rule addNew_holders)
  show ?case
    using Cons.IH [OF d h] by (simp add: call addNewContributorsToBuckets_def)
qed

lemma obj_set_holders_other:
  "map_of b k = Some s \<Longrightarrow> (a \<in> set v \<longleftrightarrow> a \<in> set s) \<Longrightarrow>
   holders a (obj_set k v b) = holders a b"
  by (induction b) (auto simp: holders_def split: if_splits)

lemma obj_set_holders_new:
  "map_of b k = Some s \<Longrightarrow> holders a b = [] \<Longrightarrow> a \<in> set v \<Longrightarrow>
   holders a (obj_set k v b) = [k]"
  by (induction b) (auto simp: holders_def split: if_splits)

lemma ensureBucket_holders: "holders a (ensureBucket k b) = holders a b"
  by (simp add: holders_def ensureBucket_filter)

lemma holders_empty_iff: "holders a b = [] \<longleftrightarrow> \<not> (\<exists>p \<in> set b. a \<in> set (snd p))"
  by (auto simp: holders_def filter_empty_conv)

lemma addNew_holders_eq:
  "holders a (addNewContributorToBucket k c b) =
     (if a = c \<and> holders a b = [] then [k] else holders a b)"
proof -
  let ?b = "ensureBucket k b"
  obtain s where s: "map_of ?b k = Some s" by (simp add: map_of_ensureBucket)
  show ?thesis
  proof (cases "\<exists>p \<in> set ?b. c \<in> set (snd p)")
    case True
    then have "holders c ?b \<noteq> []" by (simp add: holders_empty_iff)
    then have "holders c b \<noteq> []" by (simp add: ensureBucket_holders)
    then show ?thesis
      using True by (auto simp: addNewContributorToBucket_eq ensureBucket_holders)
  next
    case False
    then have e: "holders c ?b = []" by (simp add: holders_empty_iff)
    have eq: "addNewContributorToBucket k c b = obj_set k (Set_add c s) ?b"
      using False s by (simp add: addNewContributorToBucket_eq)
    show ?thesis
    proof (cases "a = c")
      case True
      have "holders c (obj_set k (Set_add c s) ?b) = [k]"
        using s e by (rule obj_set_holders_new) simp
      then show ?thesis
        using True e by (simp add: eq ensureBucket_holders)
    next
      case False
      have "holders a (obj_set k (Set_add c s) ?b) = holders a ?b"
        using s by (rule obj_set_holders_other) (use False in simp)
      then show ?thesis
        using False by (simp add: eq ensureBucket_holders)
    qed
  qed
qed

lemma addAll_holders:
  "holders a (addNewContributorsToBuckets calls b) =
     (if holders a b \<noteq> [] then holders a b
      else case find (\<lambda>call. snd call = a) calls of
             None \<Rightarrow> [] | Some call \<Rightarrow> [fst call])"
proof (induction calls arbitrary: b)
  case Nil
  show ?case by (simp add: addNewContributorsToBuckets_def)
next
  case (Cons call calls)
  obtain k c where call: "call = (k, c)" by (cases call)
  have step: "addNewContributorsToBuckets (call # calls) b =
      addNewContributorsToBuckets calls (addNewContributorToBucket k c b)"
    by (simp add: addNewContributorsToBuckets_def call)
  show ?case
    unfolding step Cons.IH addNew_holders_eq
    by (auto simp: call)
qed

lemma addAll_append:
  "addNewContributorsToBuckets (calls @ later) b =
     addNewContributorsToBuckets later (addNewContributorsToBuckets calls b)"
  by (simp add: addNewContributorsToBuckets_def)

text \<open>
  C7. After any sequence of calls of \<open>addNewContributorToBucket\<close> from the empty bucket
  map of a run, the buckets have different keys and an author is in the new-contributor
  set of at most one of them: the bucket of the first call that names the author. Once
  an author is in the set of a bucket, no later call moves the author or adds the
  author to another bucket.
\<close>

theorem new_contributor_in_one_bucket:
  "distinct (map fst (addNewContributorsToBuckets calls []))
   \<and> length (holders a (addNewContributorsToBuckets calls [])) \<le> 1
   \<and> holders a (addNewContributorsToBuckets calls []) =
       (case find (\<lambda>call. snd call = a) calls of None \<Rightarrow> [] | Some call \<Rightarrow> [fst call])
   \<and> (holders a (addNewContributorsToBuckets calls []) = [k] \<longrightarrow>
        holders a (addNewContributorsToBuckets (calls @ later) []) = [k])"
proof -
  have 1: "distinct (map fst (addNewContributorsToBuckets calls []))
   \<and> length (holders a (addNewContributorsToBuckets calls [])) \<le> 1"
    by (rule fold_addNew_invariant) (simp_all add: holders_def)
  have 2: "holders a (addNewContributorsToBuckets calls []) =
       (case find (\<lambda>call. snd call = a) calls of None \<Rightarrow> [] | Some call \<Rightarrow> [fst call])"
  proof -
    have "holders a [] = []" by (simp add: holders_def)
    then show ?thesis by (simp add: addAll_holders)
  qed
  have 3: "holders a (addNewContributorsToBuckets calls []) = [k] \<longrightarrow>
        holders a (addNewContributorsToBuckets (calls @ later) []) = [k]"
    unfolding addAll_append by (simp add: addAll_holders [of a later])
  show ?thesis using 1 2 3 by blast
qed

text \<open>
  Alice is new in week 1; then she is seen again in week 2, and bob in week 2.
\<close>

theorem new_contributor_in_one_bucket_witness:
  "addNewContributorsToBuckets [(''2024:1'', ''alice'')] [] = [(''2024:1'', [''alice''])]
   \<and> holders ''alice'' (addNewContributorsToBuckets [(''2024:1'', ''alice'')] []) = [''2024:1'']
   \<and> addNewContributorsToBuckets
       ([(''2024:1'', ''alice'')] @ [(''2024:2'', ''alice''), (''2024:2'', ''bob'')]) []
     = [(''2024:1'', [''alice'']), (''2024:2'', [''bob''])]
   \<and> holders ''alice'' (addNewContributorsToBuckets
       ([(''2024:1'', ''alice'')] @ [(''2024:2'', ''alice''), (''2024:2'', ''bob'')]) [])
     = [''2024:1'']
   \<and> length (holders ''alice'' (addNewContributorsToBuckets
       ([(''2024:1'', ''alice'')] @ [(''2024:2'', ''alice''), (''2024:2'', ''bob'')]) [])) \<le> 1"
  (is "?first \<and> ?h1 \<and> ?all \<and> ?h2 \<and> ?one")
proof -
  have f: ?first by code_simp
  have r: ?all by code_simp
  have h1: ?h1 by code_simp
  have h2: ?h2
    using new_contributor_in_one_bucket
      [of "[(''2024:1'', ''alice'')]" "''alice''" "''2024:1''"
          "[(''2024:2'', ''alice''), (''2024:2'', ''bob'')]"] h1
    by blast
  have o: ?one by (simp only: h2) simp
  show ?thesis using f r h1 h2 o by blast
qed

lemma step_buckets_keys:
  "distinct (map fst (bucketNewContributors st)) \<Longrightarrow>
   distinct (map fst (bucketNewContributors (step ev st)))"
  by (cases ev)
    (simp_all add: getPullMetrics_def getIssueMetrics_def Let_def trackContributor_buckets
      addNew_keys)

lemma step_buckets_holders:
  assumes "length (holders a (bucketNewContributors st)) \<le> 1"
  shows "length (holders a (bucketNewContributors (step ev st))) \<le> 1"
proof -
  note h = addNew_holders [OF assms]
  show ?thesis
    using assms h
    by (cases ev)
      (simp_all add: getPullMetrics_def getIssueMetrics_def Let_def trackContributor_buckets)
qed

text \<open>The same in a run: the calls are those the items of the run make.\<close>

lemma run_buckets_unique:
  "distinct (map fst (bucketNewContributors st)) \<Longrightarrow>
   length (holders a (bucketNewContributors st)) \<le> 1 \<Longrightarrow>
   distinct (map fst (bucketNewContributors (fold step evs st)))
   \<and> length (holders a (bucketNewContributors (fold step evs st))) \<le> 1"
proof (induction evs arbitrary: st)
  case Nil
  then show ?case by simp
next
  case (Cons ev evs)
  have d: "distinct (map fst (bucketNewContributors (step ev st)))"
    using Cons.prems(1) by (rule step_buckets_keys)
  have h: "length (holders a (bucketNewContributors (step ev st))) \<le> 1"
    using Cons.prems(2) by (rule step_buckets_holders)
  show ?case using Cons.IH [OF d h] by simp
qed

text \<open>
  C9. A call with a key the bucket map does not have yet, for a contributor that some
  bucket has already, leaves a new bucket with an empty set at the end of the map; the
  counts handed to the percentile and to the mean of new contributors per week get a
  zero for it.
\<close>

theorem empty_bucket_for_known_contributor:
  assumes "obj_get (bucketNewContributors st) bucketKey = None"
    and "list_ex (\<lambda>contributors. Set_has contributors contributor)
           (Object_values (bucketNewContributors st))"
  shows "addNewContributorToBucket bucketKey contributor (bucketNewContributors st) =
           bucketNewContributors st @ [(bucketKey, [])]
    \<and> contributorCounts (st\<lparr> bucketNewContributors :=
           addNewContributorToBucket bucketKey contributor (bucketNewContributors st) \<rparr>) =
         contributorCounts st @ [0]
    \<and> p50NumberOfNewContributorsPerWeek (makeMetrics adopters (st\<lparr> bucketNewContributors :=
           addNewContributorToBucket bucketKey contributor (bucketNewContributors st) \<rparr>)) =
         percentile 50 (contributorCounts st @ [0])
    \<and> meanNumberOfNewContributorsPerWeek (makeMetrics adopters (st\<lparr> bucketNewContributors :=
           addNewContributorToBucket bucketKey contributor (bucketNewContributors st) \<rparr>)) =
         mean (contributorCounts st @ [0])"
proof -
  let ?b = "bucketNewContributors st"
  have e: "ensureBucket bucketKey ?b = ?b @ [(bucketKey, [])]"
    using assms(1) by (simp add: ensureBucket_def obj_get_def)
  have 1: "addNewContributorToBucket bucketKey contributor ?b = ?b @ [(bucketKey, [])]"
    using assms(2) unfolding addNewContributorToBucket_eq e
    by (auto simp: list_ex_iff Object_values_def Set_has_def)
  have 2: "contributorCounts (st\<lparr> bucketNewContributors :=
             addNewContributorToBucket bucketKey contributor ?b \<rparr>) = contributorCounts st @ [0]"
    by (simp add: 1 contributorCounts_def Object_values_def Set_size_def)
  show ?thesis
    using 1 2 by (simp add: makeMetrics_def Let_def)
qed

text \<open>
  Alice, new in week 1, comes again in week 2: the counts are 1 and 0, their median is 0
  and their mean a half.
\<close>

theorem empty_bucket_for_known_contributor_witness:
  "obj_get (bucketNewContributors
      (emptyStores\<lparr> bucketNewContributors := [(''2024:1'', [''alice''])] \<rparr>)) ''2024:2'' = None
   \<and> list_ex (\<lambda>contributors. Set_has contributors ''alice'')
       (Object_values (bucketNewContributors
         (emptyStores\<lparr> bucketNewContributors := [(''2024:1'', [''alice''])] \<rparr>)))
   \<and> addNewContributorToBucket ''2024:2'' ''alice'' [(''2024:1'', [''alice''])] =
       [(''2024:1'', [''alice'']), (''2024:2'', [])]
   \<and> p50NumberOfNewContributorsPerWeek (makeMetrics []
       (emptyStores\<lparr> bucketNewContributors :=
          addNewContributorToBucket ''2024:2'' ''alice'' [(''2024:1'', [''alice''])] \<rparr>)) = Some 0
   \<and> meanNumberOfNewContributorsPerWeek (makeMetrics []
       (emptyStores\<lparr> bucketNewContributors :=
          addNewContributorToBucket ''2024:2'' ''alice'' [(''2024:1'', [''alice''])] \<rparr>))
       = Some (1 / 2)"
  (is "?absent \<and> ?known \<and> ?rest")
proof -
  have a: ?absent by (simp add: obj_get_def)
  have k: ?known by (simp add: Object_values_def Set_has_def)
  have p: "percentile 50 [1, 0] = Some 0" by code_simp
  have m: "mean [1, 0] = Some (1 / 2)" by (simp add: mean_def)
  have c: "contributorCounts
      (emptyStores\<lparr> bucketNewContributors := [(''2024:1'', [''alice''])] \<rparr>) = [1]"
    by (simp add: contributorCounts_def Object_values_def Set_size_def)
  note T = empty_bucket_for_known_contributor [OF a k, of "[]"]
  have t1: "addNewContributorToBucket ''2024:2'' ''alice'' [(''2024:1'', [''alice''])] =
       [(''2024:1'', [''alice'']), (''2024:2'', [])]"
    using T [THEN conjunct1] by simp
  have t3: "p50NumberOfNewContributorsPerWeek (makeMetrics []
       (emptyStores\<lparr> bucketNewContributors :=
          addNewContributorToBucket ''2024:2'' ''alice'' [(''2024:1'', [''alice''])] \<rparr>)) = Some 0"
    using T [THEN conjunct2, THEN conjunct2, THEN conjunct1] by (simp add: c p)
  have t4: "meanNumberOfNewContributorsPerWeek (makeMetrics []
       (emptyStores\<lparr> bucketNewContributors :=
          addNewContributorToBucket ''2024:2'' ''alice'' [(''2024:1'', [''alice''])] \<rparr>))
       = Some (1 / 2)"
    using T [THEN conjunct2, THEN conjunct2, THEN conjunct2] by (simp add: c m)
  show ?thesis
    using a k t1 t3 t4 by blast
qed

section \<open>Bots\<close>

lemma addNew_members:
  assumes "p \<in> set (addNewContributorToBucket k c b)" and "x \<in> set (snd p)"
  shows "x = c \<or> (\<exists>q \<in> set b. x \<in> set (snd q))"
proof -
  have e: "\<And>q. q \<in> set (ensureBucket k b) \<Longrightarrow> x \<in> set (snd q) \<Longrightarrow> q \<in> set b"
    by (auto simp: ensureBucket_def split: if_splits)
  show ?thesis
  proof (cases "\<exists>q \<in> set (ensureBucket k b). c \<in> set (snd q)")
    case True
    with assms(1) have "p \<in> set (ensureBucket k b)"
      by (simp add: addNewContributorToBucket_eq)
    then have "p \<in> set b" using assms(2) by (rule e)
    then show ?thesis using assms(2) by blast
  next
    case False
    obtain s where s: "map_of (ensureBucket k b) k = Some s" by (simp add: map_of_ensureBucket)
    then have ks: "(k, s) \<in> set (ensureBucket k b)" by (rule map_of_SomeD)
    from False s assms(1)
    have "p \<in> set (obj_set k (Set_add c s) (ensureBucket k b))"
      by (simp add: addNewContributorToBucket_eq)
    then have "p = (k, Set_add c s) \<or> p \<in> set (ensureBucket k b)"
      by (rule obj_set_members)
    then show ?thesis
    proof
      assume "p = (k, Set_add c s)"
      then have "x = c \<or> x \<in> set (snd (k, s))" using assms(2) by simp
      then show ?thesis using e [OF ks] by blast
    next
      assume "p \<in> set (ensureBucket k b)"
      then show ?thesis using e assms(2) by blast
    qed
  qed
qed

lemma addNew_noBots:
  "noBots b \<Longrightarrow> \<not> isContributorABot c \<Longrightarrow> noBots (addNewContributorToBucket k c b)"
  unfolding noBots_def using addNew_members by blast

lemma step_noBots:
  "noBots (bucketNewContributors st) \<Longrightarrow> noBots (bucketNewContributors (step ev st))"
  by (cases ev)
    (simp_all add: getPullMetrics_def getIssueMetrics_def Let_def trackContributor_buckets
      addNew_noBots)

lemma fold_step_noBots:
  "noBots (bucketNewContributors st) \<Longrightarrow> noBots (bucketNewContributors (fold step evs st))"
  by (induction evs arbitrary: st) (simp_all add: step_noBots)

lemma tracked_not_bot: "tracked ev = Some (r, name) \<Longrightarrow> \<not> isContributorABot name"
  by (cases ev) (auto split: if_splits)

lemma nonBotAuthors_not_bot: "a \<in> set (nonBotAuthors evs) \<Longrightarrow> \<not> isContributorABot a"
  by (auto simp: nonBotAuthors_def List.map_filter_def dest: tracked_not_bot)

lemma reconcileName_buckets [simp]:
  "bucketNewContributors (reconcileName n st) = bucketNewContributors st"
  by (simp add: reconcileName_def)

lemma reconcile_buckets [simp]:
  "bucketNewContributors (reconcile st) = bucketNewContributors st"
proof -
  have "\<And>s. bucketNewContributors (fold reconcileName ns s) = bucketNewContributors s" for ns
    by (induction ns) simp_all
  then show ?thesis by (simp add: reconcile_def)
qed

text \<open>A bot's name is in no contributor set at the end of a run.\<close>

lemma bots_never_tracked:
  assumes "isContributorABot a"
  shows "a \<notin> set (namesOfContributors (reconcile (collectMetrics args repos)))"
    and "a \<notin> set (namesOfRecentContributors (reconcile (collectMetrics args repos)))"
    and "holders a (bucketNewContributors (reconcile (collectMetrics args repos))) = []"
proof -
  let ?st = "collectMetrics args repos"
  let ?evs = "runEvents args repos"
  have n: "a \<notin> set (nonBotAuthors ?evs)"
    using assms nonBotAuthors_not_bot by blast
  show "a \<notin> set (namesOfContributors (reconcile ?st))"
    using n
    by (simp add: reconcile_known collectMetrics_recent(2) collectMetrics_known
        nonBotAuthors_split)
  show "a \<notin> set (namesOfRecentContributors (reconcile ?st))"
    using n
    by (simp add: reconcile_recent [OF collectMetrics_recent(1)] collectMetrics_recent(2)
        collectMetrics_known nonBotAuthors_split)
  have "noBots (bucketNewContributors ?st)"
    unfolding collectMetrics_def by (rule fold_step_noBots) (simp add: noBots_def)
  then show "holders a (bucketNewContributors (reconcile ?st)) = []"
    using assms by (auto simp: noBots_def holders_def filter_empty_conv)
qed

text \<open>Every pull request, of a bot or not, adds one to the count of its bucket.\<close>

lemma pull_count_incremented:
  "obj_get (bucketPullCount (getPullMetrics now pull st)) (getBucketKey pull) =
     Some (case obj_get (bucketPullCount st) (getBucketKey pull) of
             None \<Rightarrow> 1 | Some n \<Rightarrow> n + 1)"
  by (auto simp: getPullMetrics_def Let_def obj_get_def map_of_obj_set split: option.splits)

text \<open>
  C8 at a pull request of \<open>dependabot[bot]\<close> closed in the second it was created and
  processed eleven days later: the pull request is counted in its bucket, and it is
  closed and inside the window, but its seconds to close are 0 and the test
  \<open>isPullInRange && secondsToClose\<close> takes 0 for false, so it adds no sample.
\<close>

theorem bot_zero_duration_sample_dropped:
  "isContributorABot ''dependabot[bot]''
   \<and> isPullOrIssueWithinMetricsRange (utcTime 2024 3 31 0 0 0)
     (itemBy ''dependabot[bot]'' (utcTime 2024 3 20 10 15 30)
        (Some (utcTime 2024 3 20 10 15 30)))
   \<and> bucketPullCount (getPullMetrics (utcTime 2024 3 31 0 0 0)
     (itemBy ''dependabot[bot]'' (utcTime 2024 3 20 10 15 30)
        (Some (utcTime 2024 3 20 10 15 30))) emptyStores) = [(''2024:12'', 1)]
   \<and> secondsToClosePulls (getPullMetrics (utcTime 2024 3 31 0 0 0)
     (itemBy ''dependabot[bot]'' (utcTime 2024 3 20 10 15 30)
        (Some (utcTime 2024 3 20 10 15 30))) emptyStores) = []"
  by code_simp

section \<open>The number of new pull requests\<close>

lemma step_pull_samples:
  "length (secondsToClosePulls (step ev st)) =
     length (secondsToClosePulls st) + (if sampledPull ev then 1 else 0)"
  by (cases ev) (simp_all add: getPullMetrics_samples truthyNumber_getSecondsToClose)

lemma fold_step_pull_samples:
  "length (secondsToClosePulls (fold step evs st)) =
     length (secondsToClosePulls st) + length (filter sampledPull evs)"
  by (induction evs arbitrary: st) (simp_all add: step_pull_samples)

text \<open>
  C10. The field \<open>numberOfPullRequestNew\<close> of the metrics is the length of the list of
  seconds to close of pull requests, which is the number of the pull requests of the run
  that are inside the window, have a \<open>closed_at\<close> and seconds to close other than zero.
\<close>

theorem numberOfPullRequestNew_counts:
  "main args repos response = Inr m \<Longrightarrow>
   numberOfPullRequestNew m = length (secondsToClosePulls (collectMetrics args repos))
   \<and> numberOfPullRequestNew m = length (filter sampledPull (runEvents args repos))"
  by (auto simp: main_def makeMetrics_def Let_def collectMetrics_def fold_step_pull_samples
      split: sum.splits)

text \<open>
  Three pull requests inside the window: alice's, closed after two days, bob's, not
  closed, and carol's, closed in the second it was created. One is counted.
\<close>

theorem numberOfPullRequestNew_counts_witness:
  "main metricsOnly
      [\<lparr> pullPages = [[
           (utcTime 2024 3 31 0 0 0,
            itemBy ''alice'' (utcTime 2024 3 21 0 0 0) (Some (utcTime 2024 3 23 0 0 0))),
           (utcTime 2024 3 31 0 0 0,
            itemBy ''bob'' (utcTime 2024 3 22 0 0 0) None),
           (utcTime 2024 3 31 0 0 0,
            itemBy ''carol'' (utcTime 2024 3 20 10 15 30) (Some (utcTime 2024 3 20 10 15 30)))]],
         issuePages = [] \<rparr>] FetchRejects =
     Inr (makeMetrics [] (collectMetrics metricsOnly
      [\<lparr> pullPages = [[
           (utcTime 2024 3 31 0 0 0,
            itemBy ''alice'' (utcTime 2024 3 21 0 0 0) (Some (utcTime 2024 3 23 0 0 0))),
           (utcTime 2024 3 31 0 0 0,
            itemBy ''bob'' (utcTime 2024 3 22 0 0 0) None),
           (utcTime 2024 3 31 0 0 0,
            itemBy ''carol'' (utcTime 2024 3 20 10 15 30) (Some (utcTime 2024 3 20 10 15 30)))]],
         issuePages = [] \<rparr>]))
   \<and> numberOfPullRequestNew (makeMetrics [] (collectMetrics metricsOnly
      [\<lparr> pullPages = [[
           (utcTime 2024 3 31 0 0 0,
            itemBy ''alice'' (utcTime 2024 3 21 0 0 0) (Some (utcTime 2024 3 23 0 0 0))),
           (utcTime 2024 3 31 0 0 0,
            itemBy ''bob'' (utcTime 2024 3 22 0 0 0) None),
           (utcTime 2024 3 31 0 0 0,
            itemBy ''carol'' (utcTime 2024 3 20 10 15 30) (Some (utcTime 2024 3 20 10 15 30)))]],
         issuePages = [] \<rparr>])) = 1
   \<and> length (filter sampledPull (runEvents metricsOnly
      [\<lparr> pullPages = [[
           (utcTime 2024 3 31 0 0 0,
            itemBy ''alice'' (utcTime 2024 3 21 0 0 0) (Some (utcTime 2024 3 23 0 0 0))),
           (utcTime 2024 3 31 0 0 0,
            itemBy ''bob'' (utcTime 2024 3 22 0 0 0) None),
           (utcTime 2024 3 31 0 0 0,
            itemBy ''carol'' (utcTime 2024 3 20 10 15 30) (Some (utcTime 2024 3 20 10 15 30)))]],
         issuePages = [] \<rparr>])) = 1"
  (is "?main \<and> ?number = 1 \<and> ?counted = 1")
proof -
  have m: ?main by (simp add: main_def)
  have e: "?counted = 1" by code_simp
  have "?number = ?counted"
    using numberOfPullRequestNew_counts [OF m] by (rule conjunct2)
  then have n: "?number = 1" by (simp only: e)
  show ?thesis using m n e by blast
qed

end
